theory Spec2Isabelle
  imports Complex_Main
begin

section \<open>JavaScript numbers\<close>

text \<open>
  The application computes with JavaScript numbers. A number is modelled as an exact
  rational, or one of the three special values. Decimal literals of the source
  (\<^verbatim>\<open>0.001\<close>, \<^verbatim>\<open>0.01\<close>, \<^verbatim>\<open>0.1\<close>) stand for their decimal values. Products and
  quotients are exact: their rounding, their overflow to infinity and the sign of zero
  are not modelled. The conversion of text to a number rounds to the nearest double, as
  the language does (\<open>roundNumber\<close> below).
\<close>

datatype jsnum = Num rat | PosInf | NegInf | NaN

text \<open>The relational operators: every comparison with \<open>NaN\<close> is false.\<close>

fun js_less :: "jsnum \<Rightarrow> jsnum \<Rightarrow> bool" where
  "js_less (Num a) (Num b) = (a < b)"
| "js_less (Num a) PosInf = True"
| "js_less NegInf (Num b) = True"
| "js_less NegInf PosInf = True"
| "js_less _ _ = False"

definition js_eq :: "jsnum \<Rightarrow> jsnum \<Rightarrow> bool" where
  "js_eq a b = (a = b \<and> a \<noteq> NaN)"

definition js_le :: "jsnum \<Rightarrow> jsnum \<Rightarrow> bool" where
  "js_le a b = (js_less a b \<or> js_eq a b)"

definition js_gt :: "jsnum \<Rightarrow> jsnum \<Rightarrow> bool" where
  "js_gt a b = js_less b a"

definition js_ge :: "jsnum \<Rightarrow> jsnum \<Rightarrow> bool" where
  "js_ge a b = js_le b a"

fun js_neg :: "jsnum \<Rightarrow> jsnum" where
  "js_neg (Num a) = Num (- a)"
| "js_neg PosInf = NegInf"
| "js_neg NegInf = PosInf"
| "js_neg NaN = NaN"

text \<open>Multiplication and division, with the special values of the language.\<close>

fun js_mul :: "jsnum \<Rightarrow> jsnum \<Rightarrow> jsnum" where
  "js_mul NaN _ = NaN"
| "js_mul _ NaN = NaN"
| "js_mul (Num a) (Num b) = Num (a * b)"
| "js_mul (Num a) PosInf = (if a = 0 then NaN else if 0 < a then PosInf else NegInf)"
| "js_mul (Num a) NegInf = (if a = 0 then NaN else if 0 < a then NegInf else PosInf)"
| "js_mul PosInf (Num b) = (if b = 0 then NaN else if 0 < b then PosInf else NegInf)"
| "js_mul NegInf (Num b) = (if b = 0 then NaN else if 0 < b then NegInf else PosInf)"
| "js_mul PosInf PosInf = PosInf"
| "js_mul PosInf NegInf = NegInf"
| "js_mul NegInf PosInf = NegInf"
| "js_mul NegInf NegInf = PosInf"

fun js_div :: "jsnum \<Rightarrow> jsnum \<Rightarrow> jsnum" where
  "js_div NaN _ = NaN"
| "js_div _ NaN = NaN"
| "js_div (Num a) (Num b) =
     (if b = 0 then (if a = 0 then NaN else if 0 < a then PosInf else NegInf)
      else Num (a / b))"
| "js_div (Num a) PosInf = Num 0"
| "js_div (Num a) NegInf = Num 0"
| "js_div PosInf (Num b) = (if 0 \<le> b then PosInf else NegInf)"
| "js_div NegInf (Num b) = (if 0 \<le> b then NegInf else PosInf)"
| "js_div _ _ = NaN"

text \<open>\<^verbatim>\<open>Math.max(...vs)\<close>: minus infinity for no argument, \<open>NaN\<close> as soon as one
  argument is \<open>NaN\<close>.\<close>

definition js_max2 :: "jsnum \<Rightarrow> jsnum \<Rightarrow> jsnum" where
  "js_max2 a b = (if a = NaN \<or> b = NaN then NaN else if js_less a b then b else a)"

definition math_max :: "jsnum list \<Rightarrow> jsnum" where
  "math_max vs = foldl js_max2 NegInf vs"

text \<open>\<^verbatim>\<open>Math.abs\<close>, used only to state what the specification calls the maximum
  absolute value.\<close>

fun js_abs :: "jsnum \<Rightarrow> jsnum" where
  "js_abs (Num a) = Num \<bar>a\<bar>"
| "js_abs PosInf = PosInf"
| "js_abs NegInf = PosInf"
| "js_abs NaN = NaN"

subsection \<open>Rounding to a double\<close>

text \<open>
  The double nearest to a rational, ties to the even significand: 53 bits of
  significand, the least exponent -1074 (subnormal numbers), and infinity from
  \<open>2 ^ 1024\<close> on.
\<close>

definition pow2 :: "int \<Rightarrow> rat" where
  "pow2 k = (if 0 \<le> k then 2 ^ nat k else 1 / 2 ^ nat (- k))"

definition pow10 :: "int \<Rightarrow> rat" where
  "pow10 k = (if 0 \<le> k then 10 ^ nat k else 1 / 10 ^ nat (- k))"

function log2i :: "int \<Rightarrow> int" where
  "log2i n = (if n < 2 then 0 else 1 + log2i (n div 2))"
  by pat_completeness auto
termination
  by (relation "measure nat") auto

definition floorLog2 :: "rat \<Rightarrow> int" where
  "floorLog2 a =
     (let (n, d) = quotient_of a;
          k = log2i n - log2i d
      in if pow2 k \<le> a then k else k - 1)"

definition roundHalfEven :: "rat \<Rightarrow> int" where
  "roundHalfEven x =
     (let f = \<lfloor>x\<rfloor>; r = x - of_int f
      in if r < 1 / 2 then f else if 1 / 2 < r then f + 1 else if even f then f else f + 1)"

text \<open>With the exponent \<open>p\<close> of the last bit at most 971, the rounded significand
  \<open>m\<close> is at most \<open>2 ^ 53\<close>, and \<open>m * 2 ^ p\<close> reaches \<open>2 ^ 1024\<close> only for
  \<open>p = 971\<close> and \<open>m = 2 ^ 53\<close>.\<close>

definition roundToDouble :: "rat \<Rightarrow> jsnum" where
  "roundToDouble a =
     (if a \<le> 0 then Num 0
      else (let p = max (floorLog2 a - 52) (- 1074);
                m = roundHalfEven (a / pow2 p)
            in if 971 < p \<or> (p = 971 \<and> m = 9007199254740992) then PosInf
               else Num (of_int m * pow2 p)))"

definition roundNumber :: "rat \<Rightarrow> jsnum" where
  "roundNumber a = (if a < 0 then js_neg (roundToDouble (- a)) else roundToDouble a)"

subsection \<open>Numbers in template literals\<close>

text \<open>
  A template literal renders a number in decimal notation. The rendering below is the
  language's for every number whose decimal expansion ends within twenty digits and whose
  magnitude needs no exponent, which covers the scaling factors and their inverses.
\<close>

definition digitChar :: "nat \<Rightarrow> char" where
  "digitChar d = ''0123456789'' ! d"

fun natToString :: "nat \<Rightarrow> string" where
  "natToString n = (if n < 10 then [digitChar n] else natToString (n div 10) @ [digitChar (n mod 10)])"

fun fracDigits :: "nat \<Rightarrow> nat \<Rightarrow> nat \<Rightarrow> string" where
  "fracDigits 0 r b = []"
| "fracDigits (Suc fuel) r b =
     (if r = 0 then [] else digitChar ((r * 10) div b) # fracDigits fuel ((r * 10) mod b) b)"

definition ratToString :: "rat \<Rightarrow> string" where
  "ratToString q =
     (let (a, b) = quotient_of q;
          n = nat \<bar>a\<bar>;
          d = nat b;
          fr = fracDigits 20 (n mod d) d
      in (if a < 0 then ''-'' else '''') @ natToString (n div d) @ (if fr = [] then [] else ''.'' @ fr))"

fun numberToString :: "jsnum \<Rightarrow> string" where
  "numberToString (Num q) = ratToString q"
| "numberToString PosInf = ''Infinity''"
| "numberToString NegInf = ''-Infinity''"
| "numberToString NaN = ''NaN''"
section \<open>Strings\<close>

text \<open>
  A string is the sequence of the bytes of its UTF-8 encoding.
  Field names are strings of characters. \<^verbatim>\<open>toLowerCase\<close> maps the letters A to Z to
  a to z; characters outside ASCII are left as they are (no such character becomes one
  of the characters the application searches for).
\<close>

definition upperCaseLetters :: string where
  "upperCaseLetters = ''ABCDEFGHIJKLMNOPQRSTUVWXYZ''"

definition lowerCaseLetters :: string where
  "lowerCaseLetters = ''abcdefghijklmnopqrstuvwxyz''"

definition toLowerChar :: "char \<Rightarrow> char" where
  "toLowerChar c =
     (case map_of (zip upperCaseLetters lowerCaseLetters) c of
        Some l \<Rightarrow> l
      | None \<Rightarrow> c)"

definition toLowerCase :: "string \<Rightarrow> string" where
  "toLowerCase s = map toLowerChar s"

text \<open>\<^verbatim>\<open>s.includes(t)\<close>: \<open>t\<close> occurs in \<open>s\<close> as a contiguous run.\<close>

fun includes_str :: "string \<Rightarrow> string \<Rightarrow> bool" where
  "includes_str [] t = (t = [])"
| "includes_str (c # cs) t = (take (length t) (c # cs) = t \<or> includes_str cs t)"


subsection \<open>Text as a number\<close>

text \<open>
  The conversion the language applies to a string where a number is wanted
  (\<^verbatim>\<open>Number(s)\<close>, \<^verbatim>\<open>isNaN(s)\<close>, \<^verbatim>\<open>s * f\<close>): white space and line terminators are
  trimmed; the empty string is 0; what is left must be a decimal literal with an
  optional sign, an optional fraction and an optional exponent, \<^verbatim>\<open>Infinity\<close> with an
  optional sign, or an unsigned binary, octal or hexadecimal integer literal; anything
  else is \<open>NaN\<close>.
\<close>

text \<open>The white space and line terminator characters of the language, in UTF-8:
  U+0009 to U+000D, U+0020, U+00A0, U+1680, U+2000 to U+200A, U+2028, U+2029, U+202F,
  U+205F, U+3000 and U+FEFF.\<close>

definition whiteSpaceCodes :: "string list" where
  "whiteSpaceCodes =
     [[CHR 0x09], [CHR 0x0A], [CHR 0x0B], [CHR 0x0C], [CHR 0x0D], [CHR 0x20],
      [CHR 0xC2, CHR 0xA0],
      [CHR 0xE1, CHR 0x9A, CHR 0x80],
      [CHR 0xE2, CHR 0x80, CHR 0x80], [CHR 0xE2, CHR 0x80, CHR 0x81],
      [CHR 0xE2, CHR 0x80, CHR 0x82], [CHR 0xE2, CHR 0x80, CHR 0x83],
      [CHR 0xE2, CHR 0x80, CHR 0x84], [CHR 0xE2, CHR 0x80, CHR 0x85],
      [CHR 0xE2, CHR 0x80, CHR 0x86], [CHR 0xE2, CHR 0x80, CHR 0x87],
      [CHR 0xE2, CHR 0x80, CHR 0x88], [CHR 0xE2, CHR 0x80, CHR 0x89],
      [CHR 0xE2, CHR 0x80, CHR 0x8A],
      [CHR 0xE2, CHR 0x80, CHR 0xA8], [CHR 0xE2, CHR 0x80, CHR 0xA9],
      [CHR 0xE2, CHR 0x80, CHR 0xAF],
      [CHR 0xE2, CHR 0x81, CHR 0x9F],
      [CHR 0xE3, CHR 0x80, CHR 0x80],
      [CHR 0xEF, CHR 0xBB, CHR 0xBF]]"

function stripPrefixes :: "string list \<Rightarrow> string \<Rightarrow> string" where
  "stripPrefixes ws s =
     (case find (\<lambda>w. w \<noteq> [] \<and> take (length w) s = w) ws of
        None \<Rightarrow> s
      | Some w \<Rightarrow> stripPrefixes ws (drop (length w) s))"
  by pat_completeness auto
termination
proof (relation "measure (\<lambda>(ws, s). length s)")
  show "wf (measure (\<lambda>(ws, s). length s))" by simp
next
  fix ws :: "string list" and s w :: string
  assume "find (\<lambda>w. w \<noteq> [] \<and> take (length w) s = w) ws = Some w"
  then have "w \<noteq> []" and t: "take (length w) s = w"
    by (auto simp: find_Some_iff)
  from t have "length w \<le> length s"
    by (metis length_take min.cobounded1)
  with \<open>w \<noteq> []\<close> show "((ws, drop (length w) s), (ws, s)) \<in> measure (\<lambda>(ws, s). length s)"
    by (cases w) auto
qed

definition trimWhiteSpace :: "string \<Rightarrow> string" where
  "trimWhiteSpace s =
     rev (stripPrefixes (map rev whiteSpaceCodes) (rev (stripPrefixes whiteSpaceCodes s)))"

definition digitValue :: "char \<Rightarrow> nat option" where
  "digitValue c =
     map_of (zip ''0123456789abcdefABCDEF''
               [0, 1, 2, 3, 4, 5, 6, 7, 8, 9, 10, 11, 12, 13, 14, 15, 10, 11, 12, 13, 14, 15]) c"

fun radixDigits :: "int \<Rightarrow> int \<Rightarrow> string \<Rightarrow> int option" where
  "radixDigits b acc [] = Some acc"
| "radixDigits b acc (c # cs) =
     (case digitValue c of
        None \<Rightarrow> None
      | Some d \<Rightarrow> if int d < b then radixDigits b (acc * b + int d) cs else None)"

definition parseRadix :: "int \<Rightarrow> string \<Rightarrow> int option" where
  "parseRadix b ds = (if ds = [] then None else radixDigits b 0 ds)"

definition nonDecimalIntegerLiteral :: "string \<Rightarrow> int option" where
  "nonDecimalIntegerLiteral t =
     (case t of
        c0 # c1 # ds \<Rightarrow>
          if c0 \<noteq> CHR ''0'' then None
          else if c1 \<in> set ''xX'' then parseRadix 16 ds
          else if c1 \<in> set ''oO'' then parseRadix 8 ds
          else if c1 \<in> set ''bB'' then parseRadix 2 ds
          else None
      | _ \<Rightarrow> None)"

definition splitFirst :: "(char \<Rightarrow> bool) \<Rightarrow> string \<Rightarrow> string \<times> string option" where
  "splitFirst P s =
     (takeWhile (\<lambda>c. \<not> P c) s,
      case dropWhile (\<lambda>c. \<not> P c) s of [] \<Rightarrow> None | _ # r \<Rightarrow> Some r)"

definition signedInteger :: "string \<Rightarrow> int option" where
  "signedInteger ds =
     (case ds of
        [] \<Rightarrow> None
      | c # r \<Rightarrow>
          if c = CHR ''+'' then parseRadix 10 r
          else if c = CHR ''-'' then map_option uminus (parseRadix 10 r)
          else parseRadix 10 ds)"

definition mantissaValue :: "string \<Rightarrow> string option \<Rightarrow> rat option" where
  "mantissaValue ip fp =
     (case fp of
        None \<Rightarrow> map_option of_int (parseRadix 10 ip)
      | Some fd \<Rightarrow>
          if ip = [] \<and> fd = [] then None
          else (case (radixDigits 10 0 ip, radixDigits 10 0 fd) of
                  (Some a, Some b) \<Rightarrow> Some (of_int a + of_int b / 10 ^ length fd)
                | _ \<Rightarrow> None))"

definition strUnsignedDecimalValue :: "string \<Rightarrow> rat option" where
  "strUnsignedDecimalValue u =
     (let (mant, ex) = splitFirst (\<lambda>c. c \<in> set ''eE'') u;
          (ip, fp) = splitFirst (\<lambda>c. c = CHR ''.'') mant
      in case mantissaValue ip fp of
           None \<Rightarrow> None
         | Some m \<Rightarrow>
             (case ex of
                None \<Rightarrow> Some m
              | Some ed \<Rightarrow> map_option (\<lambda>k. m * pow10 k) (signedInteger ed)))"

definition strUnsignedDecimalLiteral :: "string \<Rightarrow> jsnum" where
  "strUnsignedDecimalLiteral u =
     (if u = ''Infinity'' then PosInf
      else (case strUnsignedDecimalValue u of None \<Rightarrow> NaN | Some q \<Rightarrow> roundNumber q))"

definition stringToNumber :: "string \<Rightarrow> jsnum" where
  "stringToNumber str =
     (let t = trimWhiteSpace str
      in case t of
           [] \<Rightarrow> Num 0
         | c # r \<Rightarrow>
             (case nonDecimalIntegerLiteral t of
                Some n \<Rightarrow> roundNumber (of_int n)
              | None \<Rightarrow>
                  if c = CHR ''+'' then strUnsignedDecimalLiteral r
                  else if c = CHR ''-'' then js_neg (strUnsignedDecimalLiteral r)
                  else strUnsignedDecimalLiteral t))"

section \<open>The scaling heuristic\<close>

text \<open>The options of the scale drop-down, the same in every variant.\<close>

definition scalingOptions :: "(jsnum \<times> string) list" where
  "scalingOptions =
     [(Num (1 / 1000), ''/1000''), (Num (1 / 100), ''/100''), (Num (1 / 10), ''/10''),
      (Num 1, ''x1''), (Num 10, ''x10''), (Num 100, ''x100''), (Num 1000, ''x1000'')]"

definition isPercentageField :: "string \<Rightarrow> bool" where
  "isPercentageField fieldName =
     (let lowerFieldName = toLowerCase fieldName
      in includes_str lowerFieldName ''percent'' \<or> includes_str lowerFieldName ''%'')"

text \<open>\<^verbatim>\<open>calculateScalingFactor\<close> of the variant in \<^verbatim>\<open>src/unnamed/part_000\<close>.\<close>

definition calculateScalingFactor :: "jsnum \<Rightarrow> string \<Rightarrow> jsnum" where
  "calculateScalingFactor maxValue fieldName =
     (if isPercentageField fieldName then Num (1 / 100)
      else if js_eq maxValue (Num 0) then Num 1
      else if js_ge maxValue (Num 1000) then Num (1 / 1000)
      else if js_gt maxValue (Num 100) \<and> js_le maxValue (Num 1000) then Num (1 / 1000)
      else if js_gt maxValue (Num 50) \<and> js_le maxValue (Num 100) then Num (1 / 100)
      else if js_gt maxValue (Num 10) \<and> js_le maxValue (Num 50) then Num (1 / 10)
      else if js_gt maxValue (Num 1) \<and> js_le maxValue (Num 10) then Num 1
      else Num 1)"

text \<open>\<^verbatim>\<open>calculateScalingFactor\<close> of the second variant in \<^verbatim>\<open>src/src/App.jsx\<close>
  (line 182), which splits the range from 100 to 1000 at 500.\<close>

definition calculateScalingFactor_App :: "jsnum \<Rightarrow> string \<Rightarrow> jsnum" where
  "calculateScalingFactor_App maxValue fieldName =
     (if isPercentageField fieldName then Num (1 / 100)
      else if js_eq maxValue (Num 0) then Num 1
      else if js_ge maxValue (Num 1000) then Num (1 / 1000)
      else if js_gt maxValue (Num 500) \<and> js_le maxValue (Num 1000) then Num (1 / 1000)
      else if js_gt maxValue (Num 100) \<and> js_le maxValue (Num 500) then Num (1 / 100)
      else if js_gt maxValue (Num 50) \<and> js_le maxValue (Num 100) then Num (1 / 100)
      else if js_gt maxValue (Num 10) \<and> js_le maxValue (Num 50) then Num (1 / 10)
      else if js_gt maxValue (Num 1) \<and> js_le maxValue (Num 10) then Num 1
      else Num 1)"

section \<open>Cells, rows and the application state\<close>

text \<open>
  The values the CSV parser hands over with dynamic typing: numbers, booleans, null,
  dates and text, and for the fields of a row beyond the header an array of such values
  (under the key \<^verbatim>\<open>__parsed_extra\<close>). A date is given by its time value, \<open>NaN\<close> for an
  invalid date. \<open>VUndefined\<close> is what reading a key that a row lacks gives.
\<close>

datatype jsval =
  VNum jsnum | VStr string | VBool bool | VNull | VUndefined | VDate jsnum | VArray "jsval list"

text \<open>
  The conversion to a number. An array is converted through its text, the texts of its
  elements joined by commas: none for no element, the element's own text for one (the
  empty text for null and undefined, a word for a boolean, a calendar text for a date),
  and a text with a comma, which is no number, for two or more.
\<close>

fun toNumber :: "jsval \<Rightarrow> jsnum" where
  "toNumber (VNum n) = n"
| "toNumber (VStr s) = stringToNumber s"
| "toNumber (VBool b) = (if b then Num 1 else Num 0)"
| "toNumber VNull = Num 0"
| "toNumber VUndefined = NaN"
| "toNumber (VDate t) = t"
| "toNumber (VArray []) = Num 0"
| "toNumber (VArray [VNum n]) = n"
| "toNumber (VArray [VStr s]) = stringToNumber s"
| "toNumber (VArray [VBool b]) = NaN"
| "toNumber (VArray [VNull]) = Num 0"
| "toNumber (VArray [VUndefined]) = Num 0"
| "toNumber (VArray [VDate t]) = NaN"
| "toNumber (VArray [VArray vs]) = toNumber (VArray vs)"
| "toNumber (VArray (v # w # vs)) = NaN"

definition isNaN :: "jsval \<Rightarrow> bool" where
  "isNaN v = (toNumber v = NaN)"

text \<open>
  A row is an object: its own keys in enumeration order, each with its value. The parser
  builds a row by assignment, so no row has the key \<^verbatim>\<open>__proto__\<close> (an assignment to
  that name stores no entry).
\<close>

type_synonym row = "(string \<times> jsval) list"

definition getProp :: "row \<Rightarrow> string \<Rightarrow> jsval" where
  "getProp r k = (case map_of r k of None \<Rightarrow> VUndefined | Some v \<Rightarrow> v)"

definition objectKeys :: "row \<Rightarrow> string list" where
  "objectKeys r = map fst r"

text \<open>One plotted line, as handed to the chart.\<close>

record trace =
  trace_x :: "jsnum list"
  trace_y :: "jsnum list"
  trace_mode :: string
  trace_name :: string

text \<open>
  The state of the component \<^verbatim>\<open>App\<close>: one field per \<^verbatim>\<open>useState\<close>
  (\<open>fieldsList\<close> is the source's \<^verbatim>\<open>fields\<close>). The variant in
  \<^verbatim>\<open>src/unnamed/part_000\<close> has no \<open>isFullScreen\<close>; none of its functions reads or
  writes it.
\<close>

record app_state =
  csvData :: "row list"
  fieldsList :: "string list"
  selectedFields :: "string list"
  scalingFactors :: "string \<rightharpoonup> jsnum"
  data :: "trace list"
  xAxisField :: string
  xAxisScalingFactor :: jsnum
  showForm :: bool
  isFullScreen :: bool
  fileName :: string

definition initialState :: app_state where
  "initialState =
     \<lparr>csvData = [], fieldsList = [], selectedFields = [], scalingFactors = Map.empty, data = [],
      xAxisField = '''', xAxisScalingFactor = Num 1, showForm = True, isFullScreen = False,
      fileName = ''''\<rparr>"

datatype js_error = TypeError | RangeError

section \<open>Upload\<close>

text \<open>\<^verbatim>\<open>file.name.split('.').slice(0, -1).join('.')\<close>\<close>

fun splitOn :: "char \<Rightarrow> string \<Rightarrow> string list" where
  "splitOn c [] = [[]]"
| "splitOn c (x # xs) =
     (if x = c then [] # splitOn c xs
      else (case splitOn c xs of [] \<Rightarrow> [[x]] | w # ws \<Rightarrow> (x # w) # ws))"

fun joinWith :: "string \<Rightarrow> string list \<Rightarrow> string" where
  "joinWith sep [] = []"
| "joinWith sep [w] = w"
| "joinWith sep (w # ws) = w @ sep @ joinWith sep ws"

definition removeExtension :: "string \<Rightarrow> string" where
  "removeExtension name = joinWith ''.'' (butlast (splitOn CHR ''.'' name))"

text \<open>
  The loop of the \<^verbatim>\<open>complete\<close> callback over the keys of a parsed row:
  \<^verbatim>\<open>newRow[key] = isNaN(row[key]) ? row[key] : Number(row[key])\<close>.
\<close>

definition normalizeCell :: "jsval \<Rightarrow> jsval" where
  "normalizeCell v = (if isNaN v then v else VNum (toNumber v))"

definition normalizeRow :: "row \<Rightarrow> row" where
  "normalizeRow r = map (\<lambda>(key, v). (key, normalizeCell v)) r"

text \<open>
  \<^verbatim>\<open>Math.max(...vs)\<close> spreads the array into the arguments of one call. An engine takes
  only so many arguments in a call and throws a \<^verbatim>\<open>RangeError\<close> beyond; the bound
  differs from engine to engine and is the parameter \<open>maxArgs\<close> here.
\<close>

definition mathMaxSpread :: "nat \<Rightarrow> jsnum list \<Rightarrow> js_error + jsnum" where
  "mathMaxSpread maxArgs vs = (if maxArgs < length vs then Inl RangeError else Inr (math_max vs))"

text \<open>
  \<^verbatim>\<open>Math.max(...csvData.map(row => isNaN(row[field]) ? 0 : row[field]))\<close>
\<close>

definition maxValueOf :: "nat \<Rightarrow> row list \<Rightarrow> string \<Rightarrow> js_error + jsnum" where
  "maxValueOf maxArgs rows field =
     mathMaxSpread maxArgs
       (map (\<lambda>r. toNumber (if isNaN (getProp r field) then VNum (Num 0) else getProp r field)) rows)"

text \<open>
  The body of \<^verbatim>\<open>fieldNames.forEach(field => ...)\<close>: one entry of \<^verbatim>\<open>newScalingFactors\<close>
  is written per field name, unless the maximum throws.
\<close>

definition seedFactor :: "(jsnum \<Rightarrow> string \<Rightarrow> jsnum) \<Rightarrow> nat \<Rightarrow> row list \<Rightarrow> (string \<rightharpoonup> jsnum) \<Rightarrow> string \<Rightarrow> js_error + (string \<rightharpoonup> jsnum)" where
  "seedFactor calc maxArgs rows newScalingFactors field =
     (case maxValueOf maxArgs rows field of
        Inl e \<Rightarrow> Inl e
      | Inr maxValue \<Rightarrow> Inr (newScalingFactors(field \<mapsto> calc maxValue field)))"

text \<open>\<^verbatim>\<open>forEach\<close> with a body that may throw: the first throw ends the loop.\<close>

fun forEachField :: "((string \<rightharpoonup> jsnum) \<Rightarrow> string \<Rightarrow> js_error + (string \<rightharpoonup> jsnum)) \<Rightarrow> (string \<rightharpoonup> jsnum) \<Rightarrow> string list \<Rightarrow> js_error + (string \<rightharpoonup> jsnum)" where
  "forEachField body m [] = Inr m"
| "forEachField body m (field # rest) =
     (case body m field of Inl e \<Rightarrow> Inl e | Inr m' \<Rightarrow> forEachField body m' rest)"

text \<open>
  The \<^verbatim>\<open>complete\<close> callback of the two variants with the heuristic, given the parser's
  \<^verbatim>\<open>result.data\<close>. \<^verbatim>\<open>Object.keys(csvData[0])\<close> throws a \<^verbatim>\<open>TypeError\<close> when there is
  no row zero, and the maximum throws a \<^verbatim>\<open>RangeError\<close> when there are too many rows;
  the state updates issued before a throw stay in effect. The heuristic
  is the one thing the two variants differ in, so it is a parameter here. The callback
  is named \<open>complete_cb\<close>.
\<close>

definition completeWith :: "(jsnum \<Rightarrow> string \<Rightarrow> jsnum) \<Rightarrow> nat \<Rightarrow> row list \<Rightarrow> app_state \<Rightarrow> (js_error \<times> app_state) + app_state" where
  "completeWith calc maxArgs result_data s =
     (let rows = map normalizeRow result_data;
          s1 = s\<lparr>csvData := rows\<rparr>
      in case rows of
           [] \<Rightarrow> Inl (TypeError, s1)
         | row0 # _ \<Rightarrow>
             (let fieldNames = objectKeys row0;
                  s2 = s1\<lparr>fieldsList := fieldNames\<rparr>
              in case forEachField (seedFactor calc maxArgs rows) Map.empty fieldNames of
                   Inl e \<Rightarrow> Inl (e, s2)
                 | Inr newScalingFactors \<Rightarrow> Inr (s2\<lparr>scalingFactors := newScalingFactors\<rparr>)))"

definition complete_cb :: "nat \<Rightarrow> row list \<Rightarrow> app_state \<Rightarrow> (js_error \<times> app_state) + app_state" where
  "complete_cb = completeWith calculateScalingFactor"

definition complete_cb_App :: "nat \<Rightarrow> row list \<Rightarrow> app_state \<Rightarrow> (js_error \<times> app_state) + app_state" where
  "complete_cb_App = completeWith calculateScalingFactor_App"

text \<open>The callback of the first variant in \<^verbatim>\<open>src/src/App.jsx\<close> (line 35): the rows
  are stored as parsed and no scaling factor is set.\<close>

definition complete_cb_basic :: "row list \<Rightarrow> app_state \<Rightarrow> (js_error \<times> app_state) + app_state" where
  "complete_cb_basic result_data s =
     (let s1 = s\<lparr>csvData := result_data\<rparr>
      in case result_data of
           [] \<Rightarrow> Inl (TypeError, s1)
         | row0 # _ \<Rightarrow> Inr (s1\<lparr>fieldsList := objectKeys row0\<rparr>))"

text \<open>\<^verbatim>\<open>handleFileUpload\<close>: the file name is stored at once, the callback runs when the
  parser is done; nothing else runs in between.\<close>

definition handleFileUpload :: "nat \<Rightarrow> string \<Rightarrow> row list \<Rightarrow> app_state \<Rightarrow> (js_error \<times> app_state) + app_state" where
  "handleFileUpload maxArgs name result_data s =
     complete_cb maxArgs result_data (s\<lparr>fileName := removeExtension name\<rparr>)"

definition handleFileUpload_App :: "nat \<Rightarrow> string \<Rightarrow> row list \<Rightarrow> app_state \<Rightarrow> (js_error \<times> app_state) + app_state" where
  "handleFileUpload_App maxArgs name result_data s =
     complete_cb_App maxArgs result_data (s\<lparr>fileName := removeExtension name\<rparr>)"

definition handleFileUpload_basic :: "string \<Rightarrow> row list \<Rightarrow> app_state \<Rightarrow> (js_error \<times> app_state) + app_state" where
  "handleFileUpload_basic name result_data s = complete_cb_basic result_data (s\<lparr>fileName := removeExtension name\<rparr>)"

section \<open>The form\<close>

definition handleFieldChange :: "string \<Rightarrow> app_state \<Rightarrow> app_state" where
  "handleFieldChange field s =
     s\<lparr>selectedFields :=
         (let prev = selectedFields s
          in if field \<in> set prev then filter (\<lambda>f. f \<noteq> field) prev else prev @ [field])\<rparr>"

definition handleScalingChange :: "string \<Rightarrow> jsnum \<Rightarrow> app_state \<Rightarrow> app_state" where
  "handleScalingChange field factor s =
     (if field = xAxisField s then s\<lparr>xAxisScalingFactor := factor\<rparr>
      else s\<lparr>scalingFactors := (scalingFactors s)(field \<mapsto> factor)\<rparr>)"

definition handleScalingChange_basic :: "string \<Rightarrow> jsnum \<Rightarrow> app_state \<Rightarrow> app_state" where
  "handleScalingChange_basic field factor s = s\<lparr>scalingFactors := (scalingFactors s)(field \<mapsto> factor)\<rparr>"

text \<open>The names of the properties that every object inherits.\<close>

definition objectPrototypeNames :: "string list" where
  "objectPrototypeNames =
     [''constructor'', ''__defineGetter__'', ''__defineSetter__'', ''hasOwnProperty'',
      ''__lookupGetter__'', ''__lookupSetter__'', ''isPrototypeOf'', ''propertyIsEnumerable'',
      ''toString'', ''valueOf'', ''__proto__'', ''toLocaleString'']"

text \<open>
  \<^verbatim>\<open>scalingFactors[field] || 1\<close>: a stored zero or \<open>NaN\<close> gives 1, and so does a
  missing entry, unless the field is named like an inherited property. There the lookup
  finds that property, a function or an object, and \<^verbatim>\<open>||\<close> keeps it. It is no
  number: in the product, the quotient and the comparison with 1, which is all the
  program does with a factor, it behaves as \<open>NaN\<close>, which stands for it here.
\<close>

definition orOne :: "(string \<rightharpoonup> jsnum) \<Rightarrow> string \<Rightarrow> jsnum" where
  "orOne m field =
     (case m field of
        Some f \<Rightarrow> if f = Num 0 \<or> f = NaN then Num 1 else f
      | None \<Rightarrow> if field \<in> set objectPrototypeNames then NaN else Num 1)"

definition handleXAxisFieldChange :: "string \<Rightarrow> app_state \<Rightarrow> app_state" where
  "handleXAxisFieldChange field s =
     s\<lparr>xAxisField := field, xAxisScalingFactor := orOne (scalingFactors s) field\<rparr>"


definition setXAxisScalingFactor :: "jsnum \<Rightarrow> app_state \<Rightarrow> app_state" where
  "setXAxisScalingFactor factor s = s\<lparr>xAxisScalingFactor := factor\<rparr>"

section \<open>Building the chart data\<close>

text \<open>
  \<^verbatim>\<open>formatScalingFactor\<close> divides 1 by the factor. On the seven factors of the
  drop-down the quotient of binary floating point is the exact one (1000, 100, 10, 0.1,
  0.01, 0.001), so the exact quotient taken here prints the same text.
\<close>

definition formatScalingFactor :: "jsnum \<Rightarrow> string" where
  "formatScalingFactor factor =
     (if js_eq factor (Num 1) then '''' else '' / '' @ numberToString (js_div (Num 1) factor))"

definition formatScalingFactor_basic :: "jsnum \<Rightarrow> string" where
  "formatScalingFactor_basic factor =
     (if js_eq factor (Num 1) then ''''
      else '' (/ '' @ numberToString (js_div (Num 1) factor) @ '')'')"

text \<open>\<^verbatim>\<open>.filter(v => v !== null)\<close>\<close>

fun dropNulls :: "'a option list \<Rightarrow> 'a list" where
  "dropNulls [] = []"
| "dropNulls (None # vs) = dropNulls vs"
| "dropNulls (Some v # vs) = v # dropNulls vs"

text \<open>
  \<^verbatim>\<open>csvData.map((row) => !isNaN(row[f]) ? row[f] * factor : null).filter(v => v !== null)\<close>
\<close>

definition scaledColumn :: "row list \<Rightarrow> string \<Rightarrow> jsnum \<Rightarrow> jsnum list" where
  "scaledColumn rows f factor =
     dropNulls (map (\<lambda>r. if \<not> isNaN (getProp r f) then Some (js_mul (toNumber (getProp r f)) factor) else None) rows)"

text \<open>The body of \<^verbatim>\<open>selectedFields.map((field) => ...)\<close> in the two variants with the
  heuristic.\<close>

definition plotTrace :: "app_state \<Rightarrow> string \<Rightarrow> trace" where
  "plotTrace s field =
     (let xAxisNormalizationFactor = xAxisScalingFactor s;
          yAxisNormalizationFactor = orOne (scalingFactors s) field
      in \<lparr>trace_x = scaledColumn (csvData s) (xAxisField s) xAxisNormalizationFactor,
          trace_y = scaledColumn (csvData s) field yAxisNormalizationFactor,
          trace_mode = ''lines'',
          trace_name = field @ formatScalingFactor yAxisNormalizationFactor\<rparr>)"

text \<open>\<^verbatim>\<open>generateGraph\<close> gives the text of the alert it raised, if any, and the new state.\<close>

definition generateGraph :: "app_state \<Rightarrow> string option \<times> app_state" where
  "generateGraph s =
     (if xAxisField s = '''' then (Some ''Please select an X-Axis field.'', s)
      else (None, s\<lparr>data := map (plotTrace s) (selectedFields s), showForm := False\<rparr>))"

text \<open>The first variant of \<^verbatim>\<open>src/src/App.jsx\<close> (line 59) scales every cell and drops
  none.\<close>

definition plotTrace_basic :: "app_state \<Rightarrow> string \<Rightarrow> trace" where
  "plotTrace_basic s field =
     \<lparr>trace_x = map (\<lambda>r. js_mul (toNumber (getProp r (xAxisField s))) (xAxisScalingFactor s)) (csvData s),
      trace_y = map (\<lambda>r. js_mul (toNumber (getProp r field)) (orOne (scalingFactors s) field)) (csvData s),
      trace_mode = ''lines'',
      trace_name = field @ formatScalingFactor_basic (orOne (scalingFactors s) field)\<rparr>"

definition generateGraph_basic :: "app_state \<Rightarrow> string option \<times> app_state" where
  "generateGraph_basic s =
     (if xAxisField s = '''' then (Some ''Please select an X-Axis field.'', s)
      else (None, s\<lparr>data := map (plotTrace_basic s) (selectedFields s), showForm := False\<rparr>))"

section \<open>Notions of the specification\<close>

text \<open>
  The specification speaks of a field name that contains ``percent'' in any letter case
  or the character \<open>%\<close>, of cells that are numeric, of the maximum absolute value of a
  field and of the points of a series. These are stated here on their own, apart from
  the functions of the program.
\<close>

definition sameLetter :: "char \<Rightarrow> char \<Rightarrow> bool" where
  "sameLetter c l = (c = l \<or> (c, l) \<in> set (zip upperCaseLetters lowerCaseLetters))"

definition mentionsPercent :: "string \<Rightarrow> bool" where
  "mentionsPercent name =
     ((\<exists>i\<in>set [0..<Suc (length name)].
          list_all2 sameLetter (take (length ''percent'') (drop i name)) ''percent'')
      \<or> CHR ''%'' \<in> set name)"

definition isNumberCell :: "jsval \<Rightarrow> bool" where
  "isNumberCell v = (case v of VNum n \<Rightarrow> n \<noteq> NaN | _ \<Rightarrow> False)"

definition maxAbsValue :: "row list \<Rightarrow> string \<Rightarrow> jsnum" where
  "maxAbsValue rows field =
     math_max (map (\<lambda>r. js_abs (toNumber (getProp r field)))
                 (filter (\<lambda>r. \<not> isNaN (getProp r field)) rows))"

text \<open>The chart pairs the two arrays of a trace index by index.\<close>

definition seriesPoints :: "trace \<Rightarrow> (jsnum \<times> jsnum) list" where
  "seriesPoints t = zip (trace_x t) (trace_y t)"

definition cellPoints :: "trace \<Rightarrow> (jsval \<times> jsval) list" where
  "cellPoints t = map (\<lambda>(a, b). (VNum a, VNum b)) (seriesPoints t)"

definition rawPoints :: "row list \<Rightarrow> string \<Rightarrow> string \<Rightarrow> (jsval \<times> jsval) list" where
  "rawPoints rows xField yField = map (\<lambda>r. (getProp r xField, getProp r yField)) rows"

section \<open>Example inputs\<close>

text \<open>The data set \<^verbatim>\<open>[{x:1,y:"a"},{x:2,y:5}]\<close> of the specification.\<close>

definition mixedRows :: "row list" where
  "mixedRows =
     [[(''x'', VNum (Num 1)), (''y'', VStr ''a'')],
      [(''x'', VNum (Num 2)), (''y'', VNum (Num 5))]]"

definition numericRows :: "row list" where
  "numericRows =
     [[(''x'', VNum (Num 1)), (''y'', VNum (Num 5))],
      [(''x'', VNum (Num 2)), (''y'', VNum (Num 7))]]"

definition negativeRows :: "row list" where
  "negativeRows = [[(''v'', VNum (Num (- 5000)))], [(''v'', VNum (Num (- 3)))]]"

text \<open>A bound on the arguments of a call, for the examples.\<close>

definition exampleMaxArgs :: nat where
  "exampleMaxArgs = 65535"

text \<open>A state with a chart already built and no X-axis field.\<close>

definition chartedState :: app_state where
  "chartedState =
     initialState\<lparr>selectedFields := [''y''],
       data := [\<lparr>trace_x = [Num 1], trace_y = [Num 2], trace_mode = ''lines'', trace_name = ''y''\<rparr>],
       showForm := False\<rparr>"

text \<open>The state after uploading \<open>numericRows\<close>, choosing \<open>x\<close> as the X axis and
  ticking \<open>y\<close>.\<close>

definition numericState :: app_state where
  "numericState =
     handleFieldChange ''y'' (handleXAxisFieldChange ''x''
       (projr (handleFileUpload exampleMaxArgs ''data.csv'' numericRows initialState)))"



section \<open>The scaling heuristic: properties\<close>

subsection \<open>Percentage fields\<close>

lemma distinct_upperCaseLetters: "distinct upperCaseLetters"
  by (simp add: upperCaseLetters_def)

lemma length_letters: "length upperCaseLetters = length lowerCaseLetters"
  by (simp add: upperCaseLetters_def lowerCaseLetters_def)

lemma percent_letters_not_upper: "l \<in> set ''percent%'' \<Longrightarrow> l \<notin> set upperCaseLetters"
  by (auto simp: upperCaseLetters_def)

lemma percent_sign_not_lower: "CHR ''%'' \<notin> set lowerCaseLetters"
  by (simp add: lowerCaseLetters_def)

lemma map_of_letters_Some:
  "map_of (zip upperCaseLetters lowerCaseLetters) c = Some l
     \<longleftrightarrow> (c, l) \<in> set (zip upperCaseLetters lowerCaseLetters)"
  by (rule map_of_eq_Some_iff) (simp add: length_letters distinct_upperCaseLetters)

lemma toLowerChar_letter:
  assumes "l \<in> set ''percent%''"
  shows "toLowerChar c = l \<longleftrightarrow> sameLetter c l"
proof (cases "map_of (zip upperCaseLetters lowerCaseLetters) c")
  case None
  then have "(c, l) \<notin> set (zip upperCaseLetters lowerCaseLetters)"
    using map_of_letters_Some [of c l] by simp
  with None show ?thesis by (simp add: toLowerChar_def sameLetter_def)
next
  case (Some l')
  then have in_zip: "(c, l') \<in> set (zip upperCaseLetters lowerCaseLetters)"
    by (simp add: map_of_letters_Some)
  then have "c \<in> set upperCaseLetters" by (rule set_zip_leftD)
  with assms have "c \<noteq> l" using percent_letters_not_upper by blast
  moreover have "(c, l) \<in> set (zip upperCaseLetters lowerCaseLetters) \<longleftrightarrow> l' = l"
    using Some map_of_letters_Some [of c l] by auto
  ultimately show ?thesis using Some by (auto simp: toLowerChar_def sameLetter_def)
qed

lemma includes_str_iff:
  "includes_str s t \<longleftrightarrow> (\<exists>i\<le>length s. take (length t) (drop i s) = t)"
proof (induction s)
  case Nil
  then show ?case by auto
next
  case (Cons c cs)
  have "(\<exists>i\<le>length (c # cs). take (length t) (drop i (c # cs)) = t)
        \<longleftrightarrow> take (length t) (c # cs) = t \<or> (\<exists>j\<le>length cs. take (length t) (drop j cs) = t)"
    (is "?L \<longleftrightarrow> ?R")
  proof
    assume ?L
    then obtain i where i: "i \<le> length (c # cs)" "take (length t) (drop i (c # cs)) = t"
      by blast
    show ?R
    proof (cases i)
      case 0
      with i show ?thesis by simp
    next
      case (Suc j)
      with i show ?thesis by auto
    qed
  next
    assume ?R
    then show ?L
    proof
      assume "take (length t) (c # cs) = t"
      then have "take (length t) (drop 0 (c # cs)) = t" by simp
      then show ?L by blast
    next
      assume "\<exists>j\<le>length cs. take (length t) (drop j cs) = t"
      then obtain j where "j \<le> length cs" "take (length t) (drop j cs) = t" by blast
      then have "Suc j \<le> length (c # cs)" "take (length t) (drop (Suc j) (c # cs)) = t"
        by simp_all
      then show ?L by blast
    qed
  qed
  with Cons show ?case by simp
qed

lemma map_toLowerChar_eq:
  "set t \<subseteq> set ''percent%'' \<Longrightarrow> map toLowerChar w = t \<longleftrightarrow> list_all2 sameLetter w t"
proof (induction w arbitrary: t)
  case Nil
  then show ?case by auto
next
  case (Cons c w)
  show ?case
  proof (cases t)
    case Nil
    then show ?thesis by simp
  next
    case (Cons l t')
    with Cons.prems have "l \<in> set ''percent%''" "set t' \<subseteq> set ''percent%''" by auto
    then have "toLowerChar c = l \<longleftrightarrow> sameLetter c l"
      "map toLowerChar w = t' \<longleftrightarrow> list_all2 sameLetter w t'"
      using toLowerChar_letter Cons.IH by blast+
    with Cons show ?thesis by simp
  qed
qed

lemma includes_str_single: "includes_str s [c] \<longleftrightarrow> c \<in> set s"
  by (induction s) auto

lemma toLowerChar_percent_sign: "toLowerChar c = CHR ''%'' \<longleftrightarrow> c = CHR ''%''"
proof -
  have "sameLetter c CHR ''%'' \<longleftrightarrow> c = CHR ''%''"
    using percent_sign_not_lower by (auto simp: sameLetter_def dest: set_zip_rightD)
  moreover have "toLowerChar c = CHR ''%'' \<longleftrightarrow> sameLetter c CHR ''%''"
    by (rule toLowerChar_letter) simp
  ultimately show ?thesis by metis
qed

lemma includes_percent_sign:
  "includes_str (toLowerCase name) ''%'' \<longleftrightarrow> CHR ''%'' \<in> set name"
proof -
  have "CHR ''%'' \<in> set (map toLowerChar name) \<longleftrightarrow> CHR ''%'' \<in> set name"
    by (induction name) (simp_all add: toLowerChar_percent_sign eq_commute [of "CHR ''%''"])
  then show ?thesis
    by (simp only: includes_str_single toLowerCase_def)
qed

lemma Bex_upt_Suc: "(\<exists>i\<in>set [0..<Suc n]. P i) \<longleftrightarrow> (\<exists>i\<le>n. P i)"
proof -
  have "set [0..<Suc n] = {i. i \<le> n}" by (auto simp del: upt_Suc)
  then show ?thesis by (simp only: Bex_def mem_Collect_eq)
qed

text \<open>The program's test for a percentage field is the specification's notion.\<close>

lemma isPercentageField_iff: "isPercentageField name \<longleftrightarrow> mentionsPercent name"
proof -
  have "includes_str (toLowerCase name) ''percent''
        \<longleftrightarrow> (\<exists>i\<in>set [0..<Suc (length name)].
               list_all2 sameLetter (take (length ''percent'') (drop i name)) ''percent'')"
  proof -
    have "take (length ''percent'') (drop i (map toLowerChar name)) = ''percent''
          \<longleftrightarrow> list_all2 sameLetter (take (length ''percent'') (drop i name)) ''percent''" for i
      using map_toLowerChar_eq [of "''percent''" "take (length ''percent'') (drop i name)"]
      by (simp add: take_map drop_map)
    then show ?thesis
      by (simp only: includes_str_iff toLowerCase_def Bex_upt_Suc length_map)
  qed
  then show ?thesis
    by (simp add: isPercentageField_def mentionsPercent_def Let_def includes_percent_sign)
qed

text \<open>
  Claim C5. For every field name that contains ``percent'' in any letter case or the
  character \<open>%\<close>, and for every maximum value, both variants of the heuristic return
  0.01: the percentage rule comes before every magnitude rule.
\<close>

theorem percent_rule:
  "mentionsPercent fieldName \<Longrightarrow>
     calculateScalingFactor maxValue fieldName = Num (1 / 100)
     \<and> calculateScalingFactor_App maxValue fieldName = Num (1 / 100)"
  by (simp add: calculateScalingFactor_def calculateScalingFactor_App_def isPercentageField_iff)

text \<open>The rule at work on two names, with a maximum of 5000 and of 0.\<close>

theorem percent_rule_witness:
  "mentionsPercent ''Growth PERcent'' \<and> mentionsPercent ''share %''
   \<and> calculateScalingFactor (Num 5000) ''Growth PERcent'' = Num (1 / 100)
   \<and> calculateScalingFactor_App (Num 5000) ''Growth PERcent'' = Num (1 / 100)
   \<and> calculateScalingFactor (Num 0) ''share %'' = Num (1 / 100)
   \<and> calculateScalingFactor_App (Num 0) ''share %'' = Num (1 / 100)"
proof -
  have h1: "mentionsPercent ''Growth PERcent''" by code_simp
  have h2: "mentionsPercent ''share %''" by code_simp
  from h1 h2 percent_rule [OF h1, of "Num 5000"] percent_rule [OF h2, of "Num 0"]
  show ?thesis by simp
qed

subsection \<open>A maximum of zero\<close>

text \<open>
  Claim C4, as stated, fails on a percentage field: the percentage rule is tested first,
  so a maximum of zero gives 0.01 there.
\<close>

theorem scale_zero_percent_counterexample:
  "calculateScalingFactor (Num 0) ''percent'' = Num (1 / 100)
   \<and> calculateScalingFactor (Num 0) ''percent'' \<noteq> Num 1"
  by code_simp

text \<open>
  Claim C4, amended. For every field name that contains neither ``percent'' in any letter
  case nor the character \<open>%\<close>, both variants of the heuristic return 1 for a maximum
  of zero.
\<close>

theorem scale_zero_non_percent:
  "\<not> mentionsPercent name \<Longrightarrow>
     calculateScalingFactor (Num 0) name = Num 1 \<and> calculateScalingFactor_App (Num 0) name = Num 1"
  by (simp add: calculateScalingFactor_def calculateScalingFactor_App_def isPercentageField_iff js_eq_def)

theorem scale_zero_non_percent_witness:
  "\<not> mentionsPercent ''price''
   \<and> calculateScalingFactor (Num 0) ''price'' = Num 1
   \<and> calculateScalingFactor_App (Num 0) ''price'' = Num 1"
proof -
  have h: "\<not> mentionsPercent ''price''" by code_simp
  from h scale_zero_non_percent [OF h] show ?thesis by simp
qed

subsection \<open>The two variants of the heuristic\<close>

text \<open>
  Claim C9. The heuristic of \<^verbatim>\<open>src/unnamed/part_000\<close> and the one of
  \<^verbatim>\<open>src/src/App.jsx\<close> return the same factor for every field name and every maximum
  that is not both greater than 100 and at most 1000.
\<close>

theorem variants_agree:
  "\<not> (js_gt maxValue (Num 100) \<and> js_le maxValue (Num 1000)) \<Longrightarrow>
     calculateScalingFactor maxValue fieldName = calculateScalingFactor_App maxValue fieldName"
  by (cases maxValue)
     (auto simp: calculateScalingFactor_def calculateScalingFactor_App_def
        js_gt_def js_le_def js_ge_def js_eq_def)

theorem variants_agree_witness:
  "\<not> (js_gt (Num 50) (Num 100) \<and> js_le (Num 50) (Num 1000))
   \<and> calculateScalingFactor (Num 50) ''price'' = calculateScalingFactor_App (Num 50) ''price''"
proof -
  have h: "\<not> (js_gt (Num 50) (Num 100) \<and> js_le (Num 50) (Num 1000))"
    by (simp add: js_gt_def)
  from h variants_agree [OF h] show ?thesis by simp
qed

text \<open>Inside that range the two do differ, for instance at 200.\<close>

lemma variants_differ:
  "calculateScalingFactor (Num 200) ''price'' = Num (1 / 1000)
   \<and> calculateScalingFactor_App (Num 200) ''price'' = Num (1 / 100)"
  by code_simp

section \<open>Upload: properties\<close>

subsection \<open>A parse that yields no row\<close>

text \<open>
  Claim C2. When the parser yields no row, the \<^verbatim>\<open>complete\<close> callback of every variant
  stores the empty data set and then throws a \<^verbatim>\<open>TypeError\<close> at
  \<^verbatim>\<open>Object.keys(csvData[0])\<close>: row zero is read without a guard, no message is shown
  and no field name is set.
\<close>

theorem upload_without_rows:
  "complete_cb maxArgs [] s = Inl (TypeError, s\<lparr>csvData := []\<rparr>)
   \<and> complete_cb_App maxArgs [] s = Inl (TypeError, s\<lparr>csvData := []\<rparr>)
   \<and> complete_cb_basic [] s = Inl (TypeError, s\<lparr>csvData := []\<rparr>)
   \<and> handleFileUpload maxArgs name [] s
       = Inl (TypeError, s\<lparr>fileName := removeExtension name, csvData := []\<rparr>)
   \<and> handleFileUpload_App maxArgs name [] s
       = Inl (TypeError, s\<lparr>fileName := removeExtension name, csvData := []\<rparr>)
   \<and> handleFileUpload_basic name [] s
       = Inl (TypeError, s\<lparr>fileName := removeExtension name, csvData := []\<rparr>)"
  by (simp add: complete_cb_def complete_cb_App_def completeWith_def complete_cb_basic_def
      handleFileUpload_def handleFileUpload_App_def handleFileUpload_basic_def)

subsection \<open>The scaling factors set after the parse\<close>

lemma maxValueOf_within:
  "length rows \<le> maxArgs \<Longrightarrow>
     maxValueOf maxArgs rows field =
       Inr (math_max (map (\<lambda>r. if isNaN (getProp r field) then Num 0
                               else toNumber (getProp r field)) rows))"
proof -
  have "toNumber (if isNaN v then VNum (Num 0) else v) = (if isNaN v then Num 0 else toNumber v)" for v
    by simp
  then show "length rows \<le> maxArgs \<Longrightarrow> ?thesis"
    by (simp add: maxValueOf_def mathMaxSpread_def)
qed

lemma maxValueOf_beyond:
  "maxArgs < length rows \<Longrightarrow> maxValueOf maxArgs rows field = Inl RangeError"
  by (simp add: maxValueOf_def mathMaxSpread_def)

lemma seedFactor_within:
  "length rows \<le> maxArgs \<Longrightarrow>
     seedFactor calc maxArgs rows m field =
       Inr (m(field \<mapsto> calc (math_max (map (\<lambda>r. if isNaN (getProp r field) then Num 0
                               else toNumber (getProp r field)) rows)) field))"
  by (simp only: seedFactor_def maxValueOf_within sum.case)

lemma seedFactor_limit:
  assumes "length rows \<le> maxArgs"
  shows "seedFactor calc maxArgs rows = seedFactor calc (length rows) rows"
proof (intro ext)
  fix m field
  show "seedFactor calc maxArgs rows m field = seedFactor calc (length rows) rows m field"
    by (simp only: seedFactor_within [OF assms] seedFactor_within [OF order_refl])
qed

lemma forEachField_seedFactor:
  assumes "length rows \<le> maxArgs"
  shows "\<exists>m'. forEachField (seedFactor calc maxArgs rows) m fs = Inr m'
           \<and> (\<forall>field\<in>set fs. m' field =
                 Some (calc (math_max (map (\<lambda>r. if isNaN (getProp r field) then Num 0
                               else toNumber (getProp r field)) rows)) field))
           \<and> (\<forall>field. field \<notin> set fs \<longrightarrow> m' field = m field)"
proof (induction fs arbitrary: m)
  case Nil
  show ?case by simp
next
  case (Cons f fs)
  let ?v = "\<lambda>field. calc (math_max (map (\<lambda>r. if isNaN (getProp r field) then Num 0
                               else toNumber (getProp r field)) rows)) field"
  let ?m1 = "m(f \<mapsto> ?v f)"
  have body: "seedFactor calc maxArgs rows m f = Inr ?m1"
    using assms by (rule seedFactor_within)
  from Cons.IH [of ?m1] obtain m' where
    run: "forEachField (seedFactor calc maxArgs rows) ?m1 fs = Inr m'"
    and seeded: "\<forall>field\<in>set fs. m' field = Some (?v field)"
    and rest: "\<forall>field. field \<notin> set fs \<longrightarrow> m' field = ?m1 field"
    by blast
  have "forEachField (seedFactor calc maxArgs rows) m (f # fs) = Inr m'"
    by (simp only: forEachField.simps body sum.case run)
  moreover have "m' field = Some (?v field)" if "field \<in> set (f # fs)" for field
  proof (cases "field \<in> set fs")
    case True
    with seeded show ?thesis by blast
  next
    case False
    with that have ff: "field = f" by simp
    from False rest have "m' field = ?m1 field" by blast
    also have "?m1 field = Some (?v field)" unfolding ff by simp
    finally show ?thesis .
  qed
  moreover have "m' field = m field" if "field \<notin> set (f # fs)" for field
  proof -
    from that have "field \<notin> set fs" "field \<noteq> f" by auto
    with rest have "m' field = ?m1 field" by blast
    with \<open>field \<noteq> f\<close> show ?thesis by simp
  qed
  ultimately show ?case by blast
qed

lemma forEachField_beyond:
  "maxArgs < length rows \<Longrightarrow> fs \<noteq> [] \<Longrightarrow>
     forEachField (seedFactor calc maxArgs rows) m fs = Inl RangeError"
  by (cases fs) (simp_all add: seedFactor_def maxValueOf_beyond)

lemma objectKeys_normalizeRow: "objectKeys (normalizeRow r) = objectKeys r"
  by (induction r) (auto simp: objectKeys_def normalizeRow_def)

lemma completeWith_rows:
  assumes "result_data \<noteq> []" and "length result_data \<le> maxArgs"
  shows "\<exists>s'. completeWith calc maxArgs result_data s = Inr s'
           \<and> csvData s' = map normalizeRow result_data
           \<and> fieldsList s' = objectKeys (hd result_data)
           \<and> (\<forall>field\<in>set (fieldsList s').
                 scalingFactors s' field =
                   Some (calc (math_max (map (\<lambda>r. if isNaN (getProp r field) then Num 0
                               else toNumber (getProp r field)) (csvData s'))) field))"
proof -
  from assms(1) obtain row0 rest where rd: "result_data = row0 # rest"
    by (cases result_data) auto
  define rows where "rows = normalizeRow row0 # map normalizeRow rest"
  from assms(2) have "length rows \<le> maxArgs" by (simp add: rows_def rd)
  from forEachField_seedFactor [OF this, of calc Map.empty "objectKeys (normalizeRow row0)"]
  obtain m' where
    run: "forEachField (seedFactor calc maxArgs rows) Map.empty (objectKeys (normalizeRow row0)) = Inr m'"
    and seeded: "\<forall>field\<in>set (objectKeys (normalizeRow row0)). m' field =
       Some (calc (math_max (map (\<lambda>r. if isNaN (getProp r field) then Num 0
                               else toNumber (getProp r field)) rows)) field)"
    by blast
  define s' where "s' = s\<lparr>csvData := rows, fieldsList := objectKeys (normalizeRow row0),
        scalingFactors := m'\<rparr>"
  have "completeWith calc maxArgs result_data s = Inr s'"
    using run by (simp add: completeWith_def Let_def rd s'_def rows_def)
  moreover have "csvData s' = map normalizeRow result_data"
    by (simp add: s'_def rows_def rd)
  moreover have "fieldsList s' = objectKeys (hd result_data)"
    by (simp add: s'_def rd objectKeys_normalizeRow)
  moreover have "\<forall>field\<in>set (fieldsList s').
                 scalingFactors s' field =
                   Some (calc (math_max (map (\<lambda>r. if isNaN (getProp r field) then Num 0
                               else toNumber (getProp r field)) (csvData s'))) field)"
    using seeded by (simp add: s'_def)
  ultimately show ?thesis by blast
qed

text \<open>Within the bound on the arguments, the bound has no part in what the callback does.\<close>

lemma completeWith_limit:
  assumes "length result_data \<le> maxArgs"
  shows "completeWith calc maxArgs result_data s
         = completeWith calc (length result_data) result_data s"
proof -
  from assms have "length (map normalizeRow result_data) \<le> maxArgs" by simp
  then have "seedFactor calc maxArgs (map normalizeRow result_data)
             = seedFactor calc (length (map normalizeRow result_data)) (map normalizeRow result_data)"
    by (rule seedFactor_limit)
  then have eq: "seedFactor calc maxArgs (map normalizeRow result_data)
             = seedFactor calc (length result_data) (map normalizeRow result_data)"
    by (simp only: length_map)
  show ?thesis unfolding completeWith_def Let_def eq by (rule refl)
qed

lemma handleFileUpload_limit:
  "length result_data \<le> maxArgs \<Longrightarrow>
     handleFileUpload maxArgs name result_data s
       = handleFileUpload (length result_data) name result_data s"
  unfolding handleFileUpload_def complete_cb_def by (rule completeWith_limit)

text \<open>
  Beyond the bound, with a key in row zero, the callback throws while it takes the
  maximum for the first field: rows and field names are stored, no scaling factor is.
\<close>

lemma upload_too_many_rows:
  assumes "maxArgs < length result_data" and "hd result_data \<noteq> []"
  shows "complete_cb maxArgs result_data s
           = Inl (RangeError, s\<lparr>csvData := map normalizeRow result_data,
                                 fieldsList := objectKeys (hd result_data)\<rparr>)"
    and "complete_cb_App maxArgs result_data s
           = Inl (RangeError, s\<lparr>csvData := map normalizeRow result_data,
                                 fieldsList := objectKeys (hd result_data)\<rparr>)"
proof -
  from assms(1) obtain row0 rest where rd: "result_data = row0 # rest"
    by (cases result_data) auto
  with assms(2) have keys: "objectKeys (normalizeRow row0) \<noteq> []"
    by (simp add: objectKeys_def normalizeRow_def)
  from assms(1) have many: "maxArgs < length (normalizeRow row0 # map normalizeRow rest)"
    by (simp add: rd)
  have "completeWith calc maxArgs result_data s
           = Inl (RangeError, s\<lparr>csvData := map normalizeRow result_data,
                                 fieldsList := objectKeys (hd result_data)\<rparr>)" for calc
    using forEachField_beyond [OF many keys, of calc Map.empty]
    by (simp add: completeWith_def Let_def rd objectKeys_normalizeRow)
  then show "complete_cb maxArgs result_data s
           = Inl (RangeError, s\<lparr>csvData := map normalizeRow result_data,
                                 fieldsList := objectKeys (hd result_data)\<rparr>)"
    and "complete_cb_App maxArgs result_data s
           = Inl (RangeError, s\<lparr>csvData := map normalizeRow result_data,
                                 fieldsList := objectKeys (hd result_data)\<rparr>)"
    by (simp_all only: complete_cb_def complete_cb_App_def)
qed

text \<open>
  Claim C3, as stated, fails on a field whose values are negative: the maximum the
  program takes is the signed one. For the one field of \<open>negativeRows\<close>, with the
  cells -5000 and -3, the factor set is 1, while the heuristic at the maximum absolute
  value 5000 gives 0.001.
\<close>

theorem seeded_factor_counterexample:
  "\<not> isl (complete_cb exampleMaxArgs negativeRows initialState)
   \<and> scalingFactors (projr (complete_cb exampleMaxArgs negativeRows initialState)) ''v'' = Some (Num 1)
   \<and> calculateScalingFactor
        (maxAbsValue (csvData (projr (complete_cb exampleMaxArgs negativeRows initialState))) ''v'') ''v''
       = Num (1 / 1000)
   \<and> scalingFactors (projr (complete_cb exampleMaxArgs negativeRows initialState)) ''v''
       \<noteq> Some (calculateScalingFactor
                 (maxAbsValue (csvData (projr (complete_cb exampleMaxArgs negativeRows initialState))) ''v'')
                 ''v'')"
proof -
  have "length negativeRows \<le> exampleMaxArgs"
    by (simp add: negativeRows_def exampleMaxArgs_def)
  then have e: "complete_cb exampleMaxArgs negativeRows initialState
                = complete_cb (length negativeRows) negativeRows initialState"
    unfolding complete_cb_def by (rule completeWith_limit)
  have closed: "\<not> isl (complete_cb (length negativeRows) negativeRows initialState)
   \<and> scalingFactors (projr (complete_cb (length negativeRows) negativeRows initialState)) ''v'' = Some (Num 1)
   \<and> calculateScalingFactor
        (maxAbsValue (csvData (projr (complete_cb (length negativeRows) negativeRows initialState))) ''v'') ''v''
       = Num (1 / 1000)
   \<and> scalingFactors (projr (complete_cb (length negativeRows) negativeRows initialState)) ''v''
       \<noteq> Some (calculateScalingFactor
                 (maxAbsValue (csvData (projr (complete_cb (length negativeRows) negativeRows initialState))) ''v'')
                 ''v'')"
    by code_simp
  show ?thesis unfolding e by (rule closed)
qed

text \<open>
  Claim C3, amended. For every parse that yields at least one row, and no more rows than
  the engine takes as arguments of one call, the callback of either variant with the
  heuristic returns a state whose rows are the normalized rows, whose field names are the
  keys of row zero, and where the scaling factor of every field name is the heuristic at
  the maximum, over all rows, of the field's cell with every non-numeric cell counted as
  zero. No absolute value is taken.
\<close>

theorem seeded_scaling_factor:
  assumes "result_data \<noteq> []" and "length result_data \<le> maxArgs"
  shows
    "(\<exists>s'. complete_cb maxArgs result_data s = Inr s'
         \<and> csvData s' = map normalizeRow result_data
         \<and> fieldsList s' = objectKeys (hd result_data)
         \<and> (\<forall>field\<in>set (fieldsList s').
               scalingFactors s' field =
                 Some (calculateScalingFactor
                        (math_max (map (\<lambda>r. if isNaN (getProp r field) then Num 0
                                             else toNumber (getProp r field)) (csvData s')))
                        field)))
     \<and> (\<exists>s'. complete_cb_App maxArgs result_data s = Inr s'
         \<and> csvData s' = map normalizeRow result_data
         \<and> fieldsList s' = objectKeys (hd result_data)
         \<and> (\<forall>field\<in>set (fieldsList s').
               scalingFactors s' field =
                 Some (calculateScalingFactor_App
                        (math_max (map (\<lambda>r. if isNaN (getProp r field) then Num 0
                                             else toNumber (getProp r field)) (csvData s')))
                        field)))"
  unfolding complete_cb_def complete_cb_App_def
  using completeWith_rows [OF assms, of calculateScalingFactor s]
        completeWith_rows [OF assms, of calculateScalingFactor_App s]
  by (rule conjI)

text \<open>The amended claim on \<open>negativeRows\<close>: the maximum is -3, and the factor is 1.\<close>

theorem seeded_scaling_factor_witness:
  "negativeRows \<noteq> [] \<and> length negativeRows \<le> exampleMaxArgs
   \<and> (\<exists>s'. complete_cb exampleMaxArgs negativeRows initialState = Inr s' \<and> fieldsList s' = [''v'']
          \<and> scalingFactors s' ''v'' = Some (Num 1))
   \<and> (\<exists>s'. complete_cb_App exampleMaxArgs negativeRows initialState = Inr s' \<and> fieldsList s' = [''v'']
          \<and> scalingFactors s' ''v'' = Some (Num 1))"
proof -
  have h: "negativeRows \<noteq> []" by (simp add: negativeRows_def)
  have l: "length negativeRows \<le> exampleMaxArgs"
    by (simp add: negativeRows_def exampleMaxArgs_def)
  have keys: "objectKeys (hd negativeRows) = [''v'']" by code_simp
  have m: "math_max (map (\<lambda>r. if isNaN (getProp r ''v'') then Num 0 else toNumber (getProp r ''v''))
             (map normalizeRow negativeRows)) = Num (- 3)"
    by code_simp
  have c: "calculateScalingFactor (Num (- 3)) ''v'' = Num 1"
    "calculateScalingFactor_App (Num (- 3)) ''v'' = Num 1"
    by code_simp+
  from seeded_scaling_factor [OF h l, of initialState] obtain s1 s2 where
    s1: "complete_cb exampleMaxArgs negativeRows initialState = Inr s1"
      "csvData s1 = map normalizeRow negativeRows" "fieldsList s1 = objectKeys (hd negativeRows)"
      "\<forall>field\<in>set (fieldsList s1). scalingFactors s1 field =
         Some (calculateScalingFactor
                (math_max (map (\<lambda>r. if isNaN (getProp r field) then Num 0
                                     else toNumber (getProp r field)) (csvData s1))) field)"
    and s2: "complete_cb_App exampleMaxArgs negativeRows initialState = Inr s2"
      "csvData s2 = map normalizeRow negativeRows" "fieldsList s2 = objectKeys (hd negativeRows)"
      "\<forall>field\<in>set (fieldsList s2). scalingFactors s2 field =
         Some (calculateScalingFactor_App
                (math_max (map (\<lambda>r. if isNaN (getProp r field) then Num 0
                                     else toNumber (getProp r field)) (csvData s2))) field)"
    by blast
  have "scalingFactors s1 ''v'' =
         Some (calculateScalingFactor
                (math_max (map (\<lambda>r. if isNaN (getProp r ''v'') then Num 0
                                     else toNumber (getProp r ''v'')) (csvData s1))) ''v'')"
    using s1(3,4) keys by simp
  then have f1: "scalingFactors s1 ''v'' = Some (Num 1)"
    unfolding s1(2) m c .
  have "scalingFactors s2 ''v'' =
         Some (calculateScalingFactor_App
                (math_max (map (\<lambda>r. if isNaN (getProp r ''v'') then Num 0
                                     else toNumber (getProp r ''v'')) (csvData s2))) ''v'')"
    using s2(3,4) keys by simp
  then have f2: "scalingFactors s2 ''v'' = Some (Num 1)"
    unfolding s2(2) m c .
  from h l s1(1,3) s2(1,3) keys f1 f2 show ?thesis by auto
qed

text \<open>
  Text that the parser leaves as text and the language reads as a number counts as that
  number: an integer beyond the parser's range seeds the factor 0.001, and blank text
  counts as 0.
\<close>

lemma numeric_text_cells:
  "normalizeCell (VStr ''5000000000000000000'') = VNum (Num 5000000000000000000)
   \<and> normalizeCell (VStr ''  '') = VNum (Num 0)
   \<and> normalizeCell (VStr ''0x10'') = VNum (Num 16)
   \<and> normalizeCell (VDate (Num 1700000000000)) = VNum (Num 1700000000000)
   \<and> normalizeCell (VStr ''a'') = VStr ''a''
   \<and> scalingFactors (projr (complete_cb 1 [[(''v'', VStr ''5000000000000000000'')]] initialState)) ''v''
       = Some (Num (1 / 1000))"
  by code_simp

section \<open>Building the chart data: properties\<close>

subsection \<open>Generate without an X axis\<close>

text \<open>
  Claim C6. In every state where no X-axis field is selected, \<^verbatim>\<open>generateGraph\<close> of
  every variant raises the alert and returns the state as it was: selection, scaling
  factors and the series built before are untouched.
\<close>

theorem generate_without_x_axis:
  "xAxisField s = '''' \<Longrightarrow>
     generateGraph s = (Some ''Please select an X-Axis field.'', s)
     \<and> generateGraph_basic s = (Some ''Please select an X-Axis field.'', s)"
  by (simp add: generateGraph_def generateGraph_basic_def)

theorem generate_without_x_axis_witness:
  "xAxisField chartedState = ''''
   \<and> generateGraph chartedState = (Some ''Please select an X-Axis field.'', chartedState)
   \<and> generateGraph_basic chartedState = (Some ''Please select an X-Axis field.'', chartedState)"
proof -
  have h: "xAxisField chartedState = ''''" by (simp add: chartedState_def initialState_def)
  from h generate_without_x_axis [OF h] show ?thesis by simp
qed

subsection \<open>Series labels\<close>

lemma orOne_stored: "orOne (m(field \<mapsto> v)) field = (if v = Num 0 \<or> v = NaN then Num 1 else v)"
  by (simp add: orOne_def)

lemma format_options:
  "map (\<lambda>(v, l). formatScalingFactor (if v = Num 0 \<or> v = NaN then Num 1 else v)) scalingOptions
     = ['' / 1000'', '' / 100'', '' / 10'', '''', '' / 0.1'', '' / 0.01'', '' / 0.001'']"
  by code_simp

lemma format_options_basic:
  "map (\<lambda>(v, l). formatScalingFactor_basic (if v = Num 0 \<or> v = NaN then Num 1 else v)) scalingOptions
     = ['' (/ 1000)'', '' (/ 100)'', '' (/ 10)'', '''', '' (/ 0.1)'', '' (/ 0.01)'', '' (/ 0.001)'']"
  by code_simp

text \<open>
  Claim C7, as stated, fails on the first variant of \<^verbatim>\<open>src/src/App.jsx\<close>, whose
  \<^verbatim>\<open>formatScalingFactor\<close> puts the inverse factor in parentheses: the label of the
  field \<open>y\<close> with factor 0.01 is \<open>y (/ 100)\<close>, not \<open>y / 100\<close>.
\<close>

theorem label_basic_counterexample:
  "trace_name (plotTrace_basic (handleScalingChange_basic ''y'' (Num (1 / 100)) initialState) ''y'')
     = ''y (/ 100)''
   \<and> trace_name (plotTrace_basic (handleScalingChange_basic ''y'' (Num (1 / 100)) initialState) ''y'')
     \<noteq> ''y / 100''"
  by code_simp

text \<open>
  Claim C7, amended. For every factor of the scale drop-down, in its order
  0.001, 0.01, 0.1, 1, 10, 100, 1000, the label of a series is the field name followed
  by a suffix: empty for the factor 1, and otherwise the inverse factor, written after
  \<open> / \<close> in the two variants with the heuristic and as \<open> (/ \<dots>)\<close> in the first variant
  of \<^verbatim>\<open>src/src/App.jsx\<close>.
\<close>

theorem series_labels:
  "map (\<lambda>(v, l). trace_name (plotTrace (s\<lparr>scalingFactors := (scalingFactors s)(field \<mapsto> v)\<rparr>) field))
       scalingOptions
     = map (\<lambda>suffix. field @ suffix)
         ['' / 1000'', '' / 100'', '' / 10'', '''', '' / 0.1'', '' / 0.01'', '' / 0.001'']
   \<and> map (\<lambda>(v, l). trace_name (plotTrace_basic (s\<lparr>scalingFactors := (scalingFactors s)(field \<mapsto> v)\<rparr>) field))
       scalingOptions
     = map (\<lambda>suffix. field @ suffix)
         ['' (/ 1000)'', '' (/ 100)'', '' (/ 10)'', '''', '' (/ 0.1)'', '' (/ 0.01)'', '' (/ 0.001)'']"
proof -
  have "map (\<lambda>(v, l). trace_name (plotTrace (s\<lparr>scalingFactors := (scalingFactors s)(field \<mapsto> v)\<rparr>) field))
            scalingOptions
        = map (\<lambda>suffix. field @ suffix)
            (map (\<lambda>(v, l). formatScalingFactor (if v = Num 0 \<or> v = NaN then Num 1 else v)) scalingOptions)"
    by (simp add: plotTrace_def Let_def split_def comp_def orOne_stored)
  moreover have "map (\<lambda>(v, l). trace_name (plotTrace_basic (s\<lparr>scalingFactors := (scalingFactors s)(field \<mapsto> v)\<rparr>) field))
            scalingOptions
        = map (\<lambda>suffix. field @ suffix)
            (map (\<lambda>(v, l). formatScalingFactor_basic (if v = Num 0 \<or> v = NaN then Num 1 else v)) scalingOptions)"
    by (simp add: plotTrace_basic_def split_def comp_def orOne_stored)
  ultimately show ?thesis
    by (simp only: format_options format_options_basic)
qed

text \<open>The labels of the field \<open>y\<close> in the initial state, one per option.\<close>

theorem series_labels_witness:
  "map (\<lambda>(v, l). trace_name (plotTrace (initialState\<lparr>scalingFactors := (scalingFactors initialState)(''y'' \<mapsto> v)\<rparr>) ''y''))
       scalingOptions
     = [''y / 1000'', ''y / 100'', ''y / 10'', ''y'', ''y / 0.1'', ''y / 0.01'', ''y / 0.001'']
   \<and> map (\<lambda>(v, l). trace_name (plotTrace_basic (initialState\<lparr>scalingFactors := (scalingFactors initialState)(''y'' \<mapsto> v)\<rparr>) ''y''))
       scalingOptions
     = [''y (/ 1000)'', ''y (/ 100)'', ''y (/ 10)'', ''y'', ''y (/ 0.1)'', ''y (/ 0.01)'', ''y (/ 0.001)'']"
  using series_labels [of initialState "''y''"] by simp

subsection \<open>Rows with a non-numeric cell\<close>

text \<open>
  Claim C1. On the data set \<^verbatim>\<open>[{x:1,y:"a"},{x:2,y:5}]\<close>, uploaded to an engine that
  takes at least two arguments in a call, with \<open>x\<close> chosen
  as the X axis and \<open>y\<close> ticked, \<^verbatim>\<open>generateGraph\<close> builds one trace whose X array is
  \<open>[1, 2]\<close> and whose Y array is \<open>[5]\<close>: the two arrays are filtered one without the
  other, the X cell of the row whose Y cell is text stays, and the one point the chart
  pairs from them is \<open>(1, 5)\<close>, not \<open>(2, 5)\<close>.
\<close>

theorem mixed_rows_series:
  assumes "2 \<le> maxArgs"
  shows "\<not> isl (handleFileUpload maxArgs ''data.csv'' mixedRows initialState)
   \<and> data (snd (generateGraph (handleFieldChange ''y'' (handleXAxisFieldChange ''x''
        (projr (handleFileUpload maxArgs ''data.csv'' mixedRows initialState))))))
     = [\<lparr>trace_x = [Num 1, Num 2], trace_y = [Num 5], trace_mode = ''lines'', trace_name = ''y''\<rparr>]
   \<and> map seriesPoints (data (snd (generateGraph (handleFieldChange ''y'' (handleXAxisFieldChange ''x''
        (projr (handleFileUpload maxArgs ''data.csv'' mixedRows initialState)))))))
     = [[(Num 1, Num 5)]]"
proof -
  from assms have "length mixedRows \<le> maxArgs" by (simp add: mixedRows_def)
  then have e: "handleFileUpload maxArgs ''data.csv'' mixedRows initialState
                = handleFileUpload (length mixedRows) ''data.csv'' mixedRows initialState"
    by (rule handleFileUpload_limit)
  have closed: "\<not> isl (handleFileUpload (length mixedRows) ''data.csv'' mixedRows initialState)
   \<and> data (snd (generateGraph (handleFieldChange ''y'' (handleXAxisFieldChange ''x''
        (projr (handleFileUpload (length mixedRows) ''data.csv'' mixedRows initialState))))))
     = [\<lparr>trace_x = [Num 1, Num 2], trace_y = [Num 5], trace_mode = ''lines'', trace_name = ''y''\<rparr>]
   \<and> map seriesPoints (data (snd (generateGraph (handleFieldChange ''y'' (handleXAxisFieldChange ''x''
        (projr (handleFileUpload (length mixedRows) ''data.csv'' mixedRows initialState)))))))
     = [[(Num 1, Num 5)]]"
    by code_simp
  show ?thesis unfolding e by (rule closed)
qed

text \<open>The same run with the bound of the examples.\<close>

theorem mixed_rows_series_witness:
  "\<not> isl (handleFileUpload exampleMaxArgs ''data.csv'' mixedRows initialState)
   \<and> data (snd (generateGraph (handleFieldChange ''y'' (handleXAxisFieldChange ''x''
        (projr (handleFileUpload exampleMaxArgs ''data.csv'' mixedRows initialState))))))
     = [\<lparr>trace_x = [Num 1, Num 2], trace_y = [Num 5], trace_mode = ''lines'', trace_name = ''y''\<rparr>]
   \<and> map seriesPoints (data (snd (generateGraph (handleFieldChange ''y'' (handleXAxisFieldChange ''x''
        (projr (handleFileUpload exampleMaxArgs ''data.csv'' mixedRows initialState)))))))
     = [[(Num 1, Num 5)]]"
proof -
  have "2 \<le> exampleMaxArgs" by (simp add: exampleMaxArgs_def)
  then show ?thesis by (rule mixed_rows_series)
qed

subsection \<open>Numeric data with factor 1\<close>

lemma js_mul_one: "js_mul n (Num 1) = n"
  by (cases n) simp_all

lemma isNumberCell_toNumber: "isNumberCell v \<Longrightarrow> \<not> isNaN v \<and> VNum (toNumber v) = v"
  by (cases v) (simp_all add: isNumberCell_def isNaN_def)

lemma scaledColumn_numeric:
  "\<forall>r\<in>set rows. isNumberCell (getProp r f) \<Longrightarrow>
     scaledColumn rows f (Num 1) = map (\<lambda>r. toNumber (getProp r f)) rows"
proof (induction rows)
  case Nil
  show ?case by (simp add: scaledColumn_def)
next
  case (Cons r rows)
  then have "\<not> isNaN (getProp r f)"
    and "scaledColumn rows f (Num 1) = map (\<lambda>r. toNumber (getProp r f)) rows"
    by (simp_all add: isNumberCell_toNumber)
  then show ?case by (simp add: scaledColumn_def js_mul_one)
qed

lemma numeric_points:
  assumes "\<forall>r\<in>set rows. isNumberCell (getProp r xf) \<and> isNumberCell (getProp r yf)"
  shows "map (\<lambda>(a, b). (VNum a, VNum b))
           (zip (map (\<lambda>r. toNumber (getProp r xf)) rows) (map (\<lambda>r. toNumber (getProp r yf)) rows))
         = rawPoints rows xf yf"
  using assms by (induction rows) (simp_all add: rawPoints_def isNumberCell_toNumber)

lemma plotTrace_numeric:
  assumes "xAxisScalingFactor s = Num 1" and "orOne (scalingFactors s) f = Num 1"
      and "\<forall>r\<in>set (csvData s). isNumberCell (getProp r (xAxisField s)) \<and> isNumberCell (getProp r f)"
  shows "plotTrace s f =
           \<lparr>trace_x = map (\<lambda>r. toNumber (getProp r (xAxisField s))) (csvData s),
            trace_y = map (\<lambda>r. toNumber (getProp r f)) (csvData s),
            trace_mode = ''lines'', trace_name = f\<rparr>"
    and "plotTrace_basic s f =
           \<lparr>trace_x = map (\<lambda>r. toNumber (getProp r (xAxisField s))) (csvData s),
            trace_y = map (\<lambda>r. toNumber (getProp r f)) (csvData s),
            trace_mode = ''lines'', trace_name = f\<rparr>"
proof -
  from assms(3)
  have "scaledColumn (csvData s) (xAxisField s) (Num 1)
          = map (\<lambda>r. toNumber (getProp r (xAxisField s))) (csvData s)"
    and "scaledColumn (csvData s) f (Num 1) = map (\<lambda>r. toNumber (getProp r f)) (csvData s)"
    by (simp_all add: scaledColumn_numeric)
  with assms(1,2)
  show "plotTrace s f =
           \<lparr>trace_x = map (\<lambda>r. toNumber (getProp r (xAxisField s))) (csvData s),
            trace_y = map (\<lambda>r. toNumber (getProp r f)) (csvData s),
            trace_mode = ''lines'', trace_name = f\<rparr>"
    by (simp add: plotTrace_def formatScalingFactor_def js_eq_def)
  from assms(1,2)
  show "plotTrace_basic s f =
           \<lparr>trace_x = map (\<lambda>r. toNumber (getProp r (xAxisField s))) (csvData s),
            trace_y = map (\<lambda>r. toNumber (getProp r f)) (csvData s),
            trace_mode = ''lines'', trace_name = f\<rparr>"
    by (simp add: plotTrace_basic_def formatScalingFactor_basic_def js_eq_def js_mul_one)
qed

lemma series_numeric:
  assumes "xAxisScalingFactor s = Num 1"
      and "\<forall>f\<in>set fs. orOne (scalingFactors s) f = Num 1"
      and "\<forall>r\<in>set (csvData s). isNumberCell (getProp r (xAxisField s))
             \<and> (\<forall>f\<in>set fs. isNumberCell (getProp r f))"
      and "p = plotTrace \<or> p = plotTrace_basic"
  shows "map trace_name (map (p s) fs) = fs
         \<and> map cellPoints (map (p s) fs) = map (rawPoints (csvData s) (xAxisField s)) fs
         \<and> (\<forall>t\<in>set (map (p s) fs).
               length (trace_x t) = length (csvData s) \<and> length (trace_y t) = length (csvData s))"
proof -
  have "cellPoints (p s f) = rawPoints (csvData s) (xAxisField s) f
        \<and> trace_name (p s f) = f
        \<and> length (trace_x (p s f)) = length (csvData s)
        \<and> length (trace_y (p s f)) = length (csvData s)"
    if "f \<in> set fs" for f
  proof -
    from that assms have h: "orOne (scalingFactors s) f = Num 1"
      "\<forall>r\<in>set (csvData s). isNumberCell (getProp r (xAxisField s)) \<and> isNumberCell (getProp r f)"
      by auto
    have "p s f = \<lparr>trace_x = map (\<lambda>r. toNumber (getProp r (xAxisField s))) (csvData s),
            trace_y = map (\<lambda>r. toNumber (getProp r f)) (csvData s),
            trace_mode = ''lines'', trace_name = f\<rparr>"
      using assms(4) plotTrace_numeric [OF assms(1) h] by auto
    then show ?thesis
      using numeric_points [OF h(2)] by (simp add: cellPoints_def seriesPoints_def)
  qed
  then show ?thesis by (simp add: map_idI)
qed

text \<open>
  Claim C8. In every state with an X-axis field, factor 1 on the X axis and on every
  selected Y field, and a number in the X cell and in every selected Y cell of every row,
  \<^verbatim>\<open>generateGraph\<close> of every variant builds one series per selected field, in
  order and named after it, whose two arrays are as long as the data set and whose
  points, index by index, are the cells \<open>(row[xField], row[yField])\<close> of the rows.
\<close>

theorem round_trip:
  assumes "xAxisField s \<noteq> ''''"
      and "xAxisScalingFactor s = Num 1"
      and "\<forall>f\<in>set (selectedFields s). orOne (scalingFactors s) f = Num 1"
      and "\<forall>r\<in>set (csvData s). isNumberCell (getProp r (xAxisField s))
             \<and> (\<forall>f\<in>set (selectedFields s). isNumberCell (getProp r f))"
  shows "fst (generateGraph s) = None
         \<and> map trace_name (data (snd (generateGraph s))) = selectedFields s
         \<and> map cellPoints (data (snd (generateGraph s)))
             = map (rawPoints (csvData s) (xAxisField s)) (selectedFields s)
         \<and> (\<forall>t\<in>set (data (snd (generateGraph s))).
               length (trace_x t) = length (csvData s) \<and> length (trace_y t) = length (csvData s))
         \<and> fst (generateGraph_basic s) = None
         \<and> map trace_name (data (snd (generateGraph_basic s))) = selectedFields s
         \<and> map cellPoints (data (snd (generateGraph_basic s)))
             = map (rawPoints (csvData s) (xAxisField s)) (selectedFields s)
         \<and> (\<forall>t\<in>set (data (snd (generateGraph_basic s))).
               length (trace_x t) = length (csvData s) \<and> length (trace_y t) = length (csvData s))"
proof -
  have d: "data (snd (generateGraph s)) = map (plotTrace s) (selectedFields s)"
    "fst (generateGraph s) = None"
    "data (snd (generateGraph_basic s)) = map (plotTrace_basic s) (selectedFields s)"
    "fst (generateGraph_basic s) = None"
    using assms(1) by (simp_all add: generateGraph_def generateGraph_basic_def)
  show ?thesis
    unfolding d
    using series_numeric [OF assms(2,3,4), of plotTrace]
          series_numeric [OF assms(2,3,4), of plotTrace_basic]
    by simp
qed

text \<open>The claim on \<open>numericState\<close>: the one series holds the points (1, 5) and (2, 7).\<close>

theorem round_trip_witness:
  "xAxisField numericState = ''x'' \<and> selectedFields numericState = [''y'']
   \<and> fst (generateGraph numericState) = None
   \<and> map trace_name (data (snd (generateGraph numericState))) = [''y'']
   \<and> map cellPoints (data (snd (generateGraph numericState)))
       = [[(VNum (Num 1), VNum (Num 5)), (VNum (Num 2), VNum (Num 7))]]
   \<and> map cellPoints (data (snd (generateGraph_basic numericState)))
       = [[(VNum (Num 1), VNum (Num 5)), (VNum (Num 2), VNum (Num 7))]]"
proof -
  have "length numericRows \<le> exampleMaxArgs"
    by (simp add: numericRows_def exampleMaxArgs_def)
  then have "handleFileUpload exampleMaxArgs ''data.csv'' numericRows initialState
             = handleFileUpload (length numericRows) ''data.csv'' numericRows initialState"
    by (rule handleFileUpload_limit)
  then have st: "numericState =
     handleFieldChange ''y'' (handleXAxisFieldChange ''x''
       (projr (handleFileUpload (length numericRows) ''data.csv'' numericRows initialState)))"
    by (simp only: numericState_def)
  have x: "xAxisField numericState = ''x''" unfolding st by code_simp
  have sel: "selectedFields numericState = [''y'']" unfolding st by code_simp
  have h1: "xAxisField numericState \<noteq> ''''" unfolding st by code_simp
  have h2: "xAxisScalingFactor numericState = Num 1" unfolding st by code_simp
  have h3: "\<forall>f\<in>set (selectedFields numericState). orOne (scalingFactors numericState) f = Num 1"
    unfolding st by code_simp
  have h4: "\<forall>r\<in>set (csvData numericState). isNumberCell (getProp r (xAxisField numericState))
             \<and> (\<forall>f\<in>set (selectedFields numericState). isNumberCell (getProp r f))"
    unfolding st by code_simp
  have raw: "map (rawPoints (csvData numericState) (xAxisField numericState)) (selectedFields numericState)
             = [[(VNum (Num 1), VNum (Num 5)), (VNum (Num 2), VNum (Num 7))]]"
    unfolding st by code_simp
  note rt = round_trip [OF h1 h2 h3 h4, unfolded raw]
  from rt x sel show ?thesis by simp
qed

subsection \<open>The X field among the selected fields\<close>







text \<open>
  A field named like an inherited property, with no factor stored for it: in the first
  variant of \<^verbatim>\<open>src/src/App.jsx\<close> its series is labelled with \<open>NaN\<close> and holds no number.
\<close>

lemma inherited_name_series:
  "trace_name (plotTrace_basic (initialState\<lparr>csvData := [[(''constructor'', VNum (Num 5))]],
       xAxisField := ''constructor''\<rparr>) ''constructor'') = ''constructor (/ NaN)''
   \<and> trace_y (plotTrace_basic (initialState\<lparr>csvData := [[(''constructor'', VNum (Num 5))]],
       xAxisField := ''constructor''\<rparr>) ''constructor'') = [NaN]"
  by code_simp

end
